theory Spec2Isabelle
  imports Complex_Main
begin

section \<open>Python values and errors\<close>

text \<open>
  Card colours, card values and the components of a state tuple are Python objects that
  are either an \<open>int\<close> or a \<open>str\<close>. The exceptions the modelled code can raise are
  values of \<open>error\<close>; a fallible function returns \<open>error + 'a\<close>, with \<open>Inl\<close> the
  exception.
\<close>

datatype pyval = PInt int | PStr string

datatype error = KeyError | IndexError | TypeError | UnboundLocalError

text \<open>
  \<open>a >= b\<close> on two ints. On other operands Python compares strings lexicographically
  or raises TypeError; \<open>states\<close> only ever compares the int components of a tuple.
\<close>

fun py_ge :: "pyval \<Rightarrow> pyval \<Rightarrow> bool" where
  "py_ge (PInt a) (PInt b) = (b \<le> a)"
| "py_ge _ _ = False"

text \<open>\<open>sum(xs)\<close>: adding a \<open>str\<close> to the running int total raises TypeError.\<close>

fun py_sum :: "pyval list \<Rightarrow> error + int" where
  "py_sum [] = Inr 0"
| "py_sum (PInt i # xs) = (case py_sum xs of Inl e \<Rightarrow> Inl e | Inr n \<Rightarrow> Inr (i + n))"
| "py_sum (PStr s # xs) = Inl TypeError"

section \<open>State space, actions and rewards (state\_action\_reward.py)\<close>

text \<open>A state is a Python tuple; an action is a card-type label.\<close>

type_synonym state = "pyval list"
type_synonym action = string

definition norm_cards :: "(string \<times> int) list" where
  "norm_cards = [(''RED'', 2), (''GRE'', 2), (''BLU'', 2), (''YEL'', 2)]"

definition spec_cards :: "(string \<times> int) list" where
  "spec_cards = [(''SKI'', 1), (''REV'', 1), (''PL2'', 1)]"

definition wild_cards :: "(string \<times> int) list" where
  "wild_cards = [(''PL4'', 1), (''COL'', 1)]"

definition norm_cards_play :: "(string \<times> int) list" where
  "norm_cards_play = [(''RED#'', 1), (''GRE#'', 1), (''BLU#'', 1), (''YEL#'', 1)]"

definition spec_cards_play :: "(string \<times> int) list" where
  "spec_cards_play = [(''SKI#'', 1), (''REV#'', 1), (''PL2#'', 1)]"

text \<open>
  The merged dictionary, in insertion order (the keys of the five dictionaries are
  pairwise different, so merging is concatenation).
\<close>

definition states_dict :: "(string \<times> int) list" where
  "states_dict = norm_cards @ spec_cards @ wild_cards @ norm_cards_play @ spec_cards_play"

text \<open>
  The list of component ranges handed to \<open>itertools.product\<close>: the four colour names
  first, then \<open>range(0, val + 1)\<close> for every value of the dictionary.
\<close>

definition states_ranges :: "pyval list list" where
  "states_ranges =
     map PStr [''RED'', ''GRE'', ''BLU'', ''YEL'']
     # map (\<lambda>val. map PInt [0..val]) (map snd states_dict)"

text \<open>The filter of the enumeration loop: held count at least playable count.\<close>

definition states_keep :: "state \<Rightarrow> bool" where
  "states_keep s \<longleftrightarrow>
     py_ge (s ! 1) (s ! 10) \<and>
     py_ge (s ! 2) (s ! 11) \<and>
     py_ge (s ! 3) (s ! 12) \<and>
     py_ge (s ! 4) (s ! 13) \<and>
     py_ge (s ! 5) (s ! 14) \<and>
     py_ge (s ! 6) (s ! 15) \<and>
     py_ge (s ! 7) (s ! 16)"

text \<open>
  \<open>states()\<close>. \<open>product_lists\<close> enumerates like \<open>itertools.product\<close>, the last
  component running fastest; every tuple of the product has 17 components, so the
  indices of the filter are in range.
\<close>

definition states :: "state list" where
  "states = filter states_keep (product_lists states_ranges)"

definition actions :: "action list" where
  "actions = [''RED'', ''GRE'', ''BLU'', ''YEL'', ''SKI'', ''REV'', ''PL2'', ''PL4'', ''COL'']"

text \<open>
  A pandas DataFrame indexed by state tuples with action labels as columns, as a map
  from (row label, column label) to the cell; a label that is not in the frame has no
  cell. \<open>loc\<close> reads one cell by its two labels and raises KeyError on a missing label:
  it is the read \<open>frame.loc[[state], column].iloc[0]\<close>, the state tuple wrapped in a list
  so that it is taken as one row label.
\<close>

type_synonym table = "state \<times> action \<rightharpoonup> real"

definition loc :: "table \<Rightarrow> state \<Rightarrow> action \<Rightarrow> error + real" where
  "loc t s a = (case t (s, a) of None \<Rightarrow> Inl KeyError | Some v \<Rightarrow> Inr v)"

text \<open>The slice \<open>s[1:10]\<close> of a state tuple: its nine held-count components.\<close>

definition held :: "state \<Rightarrow> pyval list" where
  "held s = take 9 (drop 1 s)"

text \<open>\<open>states_t\<close> of \<open>rewards\<close>: \<open>min(sum(states[i][1:10]), 1)\<close> for every row.\<close>

fun states_t :: "state list \<Rightarrow> error + int list" where
  "states_t [] = Inr []"
| "states_t (s # ss) =
     (case py_sum (held s) of
        Inl e \<Rightarrow> Inl e
      | Inr n \<Rightarrow> (case states_t ss of Inl e \<Rightarrow> Inl e | Inr ts \<Rightarrow> Inr (min n 1 # ts)))"

text \<open>
  \<open>rewards(states, actions)\<close>: row \<open>i\<close> is all ones when \<open>states_t[i] == 0\<close> and all
  zeros otherwise; the frame is labelled by the states and the actions.
\<close>

definition rewards :: "state list \<Rightarrow> action list \<Rightarrow> error + table" where
  "rewards sts acts =
     (case states_t sts of
        Inl e \<Rightarrow> Inl e
      | Inr ts \<Rightarrow>
          Inr (\<lambda>(s, a).
                 case map_of (zip sts ts) s of
                   None \<Rightarrow> None
                 | Some t \<Rightarrow> if a \<in> set acts then Some (if t = 0 then 1 else 0) else None))"

text \<open>The reward the table built over the enumerated space gives to a pair.\<close>

definition reward_of :: "state \<Rightarrow> action \<Rightarrow> error + real" where
  "reward_of s a = (case rewards states actions of Inl e \<Rightarrow> Inl e | Inr r \<Rightarrow> loc r s a)"

text \<open>
  Membership in the enumerated space as a computable test: component by component in
  the ranges, and kept by the filter.
\<close>

definition is_state :: "state \<Rightarrow> bool" where
  "is_state s \<longleftrightarrow> list_all2 (\<lambda>x ys. x \<in> set ys) s states_ranges \<and> states_keep s"

text \<open>
  The colour names, and the claimed state space in the specification's words: sixteen
  integer components, nine held counts under the ceilings 2 (normal colours) and 1
  (special and wild types), then seven playable-flag counts under the ceiling 1, each
  held count at least its playable count.
\<close>

definition colours :: "string list" where
  "colours = [''RED'', ''GRE'', ''BLU'', ''YEL'']"

definition spec_ceilings :: "int list" where
  "spec_ceilings = [2, 2, 2, 2, 1, 1, 1, 1, 1] @ [1, 1, 1, 1, 1, 1, 1]"

fun count_ok :: "pyval \<Rightarrow> int \<Rightarrow> bool" where
  "count_ok (PInt n) c = (0 \<le> n \<and> n \<le> c)"
| "count_ok (PStr s) c = False"

definition spec_state :: "pyval list \<Rightarrow> bool" where
  "spec_state s \<longleftrightarrow>
     list_all2 count_ok s spec_ceilings \<and> list_all2 py_ge (take 7 s) (drop 9 s)"

text \<open>The int carried by a component (0 for a string, which has none).\<close>

fun int_of :: "pyval \<Rightarrow> int" where
  "int_of (PInt i) = i"
| "int_of (PStr s) = 0"

text \<open>Two sample states: no card held, and one red card held.\<close>

definition state_empty :: state where
  "state_empty = PStr ''RED'' # replicate 16 (PInt 0)"

definition state_one_red :: state where
  "state_one_red = PStr ''RED'' # PInt 1 # replicate 15 (PInt 0)"

section \<open>Agents (agents.py)\<close>

text \<open>
  Python floats are modelled as real numbers: the update rules are stated and proved in
  exact arithmetic, rounding is not modelled.
\<close>

record agent =
  epsilon :: real
  step_size :: real
  R :: table
  q :: table
  visit :: table

text \<open>The zero-filled frame over the enumerated states and the actions.\<close>

definition zeros :: table where
  "zeros = (\<lambda>(s, a). if s \<in> set states \<and> a \<in> set actions then Some 0 else None)"

subsection \<open>Reading a frame\<close>

text \<open>
  The agents read their frames in two ways. \<open>QLearningAgent.step\<close> wraps the state tuple
  in a list, \<open>self.q.loc[[state], i].iloc[0]\<close>: that is \<open>loc\<close>, the cell. Every other read,
  in \<open>QLearningAgent.update\<close>, \<open>MonteCarloAgent.step\<close> and \<open>MonteCarloAgent.update\<close>, hands
  the bare tuple to \<open>.loc\<close>, \<open>frame.loc[state, action]\<close>.

  The frames are built with \<open>index=self.states\<close>, a list of tuples, which pandas keeps as a
  flat index whose labels are the tuples themselves. On such an index \<open>.loc\<close> does not take
  a tuple as one row label: it takes it as a list of row labels, the components of the
  tuple. These are a colour name and sixteen ints, none of them a row label, and the read
  raises KeyError. That is \<open>loc_tuple\<close>. (A state tuple has 17 components; the empty tuple,
  which names no label, does not occur.)

  The functions below take the bare-tuple read as a parameter \<open>rd\<close>, so that what is
  proved of their own structure does not depend on what the read returns; the code is the
  instance \<open>rd = loc_tuple\<close>.
\<close>

type_synonym read = "table \<Rightarrow> state \<Rightarrow> action \<Rightarrow> error + real"

definition loc_tuple :: read where
  "loc_tuple t s a = Inl KeyError"

text \<open>
  A method of an agent changes the agent in place and returns or raises. Its model
  returns the agent as the call leaves it, together with the exception raised, if any
  (or with the value returned).
\<close>

subsection \<open>Q-learning agent\<close>

text \<open>
  \<open>prev_state\<close> and \<open>prev_action\<close> hold the integer 0 until the first update and a state
  tuple and an action label afterwards; the integer 0 is \<open>None\<close>.
\<close>

record qagent = agent +
  prev_state :: "state option"
  prev_action :: "action option"


text \<open>
  The random module, as the values it hands out during one call of \<open>step\<close>: the number
  returned by \<open>random.random()\<close>, the position \<open>random.choice\<close> picks, and the
  rearrangement \<open>random.shuffle\<close> applies.
\<close>

record rng =
  rnd_random :: real
  rnd_choice :: nat
  rnd_shuffle :: "action list \<Rightarrow> action list"

definition py_choice :: "rng \<Rightarrow> action list \<Rightarrow> error + action" where
  "py_choice g xs = (if xs = [] then Inl IndexError else Inr (xs ! (rnd_choice g mod length xs)))"

text \<open>
  The maximum scan of the exploitation branch, reading the value table with \<open>rd\<close>.
  \<open>val_max\<close> starts at minus infinity (\<open>None\<close>), \<open>action\<close> starts unbound (\<open>None\<close>).
\<close>

fun greedy :: "read \<Rightarrow> table \<Rightarrow> state \<Rightarrow> action list \<Rightarrow> real option \<Rightarrow> action option
    \<Rightarrow> error + action option" where
  "greedy rd t state [] val_max action = Inr action"
| "greedy rd t state (i # rest) val_max action =
     (case rd t state i of
        Inl e \<Rightarrow> Inl e
      | Inr val \<Rightarrow>
          if (case val_max of None \<Rightarrow> True | Some m \<Rightarrow> val \<ge> m)
          then greedy rd t state rest (Some val) (Some i)
          else greedy rd t state rest val_max action)"

text \<open>
  The choice of an action, common to both \<open>step\<close> methods, from \<open>self.epsilon\<close> and
  the value table. \<open>state_dict\<close> and \<open>actions_dict\<close> are dictionaries in insertion order;
  \<open>tuple(state_dict.values())\<close> is the list of values of the first. Using \<open>action\<close> while
  it is unbound raises UnboundLocalError.
\<close>

definition select_action :: "read \<Rightarrow> real \<Rightarrow> table \<Rightarrow> rng \<Rightarrow> state \<Rightarrow> (action \<times> int) list
    \<Rightarrow> error + action" where
  "select_action rd eps t g state actions_dict =
     (let actions_possible = map fst (filter (\<lambda>(key, val). val \<noteq> 0) actions_dict)
      in if rnd_random g < eps then py_choice g actions_possible
         else (case greedy rd t state (rnd_shuffle g actions_possible) None None of
                 Inl e \<Rightarrow> Inl e
               | Inr None \<Rightarrow> Inl UnboundLocalError
               | Inr (Some a) \<Rightarrow> Inr a))"

text \<open>
  \<open>QLearningAgent.step\<close>: it reads the cell with the tuple wrapped in a list and does not
  change the agent.
\<close>

definition ql_step :: "qagent \<Rightarrow> rng \<Rightarrow> (string \<times> pyval) list \<Rightarrow> (action \<times> int) list
    \<Rightarrow> error + action" where
  "ql_step ag g state_dict actions_dict =
     select_action loc (epsilon ag) (q ag) g (map snd state_dict) actions_dict"

text \<open>
  \<open>QLearningAgent.update\<close>. The integer 0 is not a column label: a read with
  \<open>prev_action\<close> still 0 raises KeyError. The assignment to a cell is reached only when
  the read of that cell has returned, and is the write of that cell.
\<close>

definition ql_update_with :: "read \<Rightarrow> qagent \<Rightarrow> (string \<times> pyval) list \<Rightarrow> action
    \<Rightarrow> qagent \<times> error option" where
  "ql_update_with rd ag state_dict action =
     (let state = map snd state_dict in
      case prev_state ag of
        None \<Rightarrow> (ag\<lparr>prev_state := Some state, prev_action := Some action\<rparr>, None)
      | Some ps \<Rightarrow>
          (case prev_action ag of
             None \<Rightarrow> (ag, Some KeyError)
           | Some pa \<Rightarrow>
          (case rd (q ag) ps pa of
             Inl e \<Rightarrow> (ag, Some e)
           | Inr prev_q \<Rightarrow>
          (case rd (q ag) state action of
             Inl e \<Rightarrow> (ag, Some e)
           | Inr this_q \<Rightarrow>
          (case rd (R ag) state action of
             Inl e \<Rightarrow> (ag, Some e)
           | Inr reward \<Rightarrow>
               (let ag1 = ag\<lparr>q := (q ag)((ps, pa) \<mapsto>
                              (if reward = 0
                               then prev_q + step_size ag * (reward + this_q - prev_q)
                               else prev_q + step_size ag * (reward - prev_q)))\<rparr>
                in case rd (visit ag1) ps pa of
                     Inl e \<Rightarrow> (ag1, Some e)
                   | Inr v \<Rightarrow>
                       (ag1\<lparr>visit := (visit ag1)((ps, pa) \<mapsto> v + 1),
                            prev_state := Some state,
                            prev_action := Some action\<rparr>, None)))))))"

definition ql_update :: "qagent \<Rightarrow> (string \<times> pyval) list \<Rightarrow> action \<Rightarrow> qagent \<times> error option" where
  "ql_update = ql_update_with loc_tuple"

subsection \<open>Monte Carlo agent\<close>

record mcagent = agent +
  state_seen :: "state list"
  action_seen :: "action list"
  q_seen :: "(state \<times> action) list"

definition mc_init :: "real \<Rightarrow> real \<Rightarrow> error + mcagent" where
  "mc_init eps st =
     (case rewards states actions of
        Inl e \<Rightarrow> Inl e
      | Inr r \<Rightarrow>
          Inr \<lparr>epsilon = eps, step_size = st, R = r, q = zeros, visit = zeros,
               state_seen = [], action_seen = [], q_seen = []\<rparr>)"

text \<open>
  \<open>MonteCarloAgent.step\<close>: the choice of the action, then the three buffers, then the
  visit count. A raise during the choice leaves the agent as it was; a raise at the
  visit count comes after the pair has been recorded.
\<close>

definition mc_step_with :: "read \<Rightarrow> mcagent \<Rightarrow> rng \<Rightarrow> (string \<times> pyval) list
    \<Rightarrow> (action \<times> int) list \<Rightarrow> mcagent \<times> (error + action)" where
  "mc_step_with rd ag g state_dict actions_dict =
     (let state = map snd state_dict in
      case select_action rd (epsilon ag) (q ag) g state actions_dict of
        Inl e \<Rightarrow> (ag, Inl e)
      | Inr action \<Rightarrow>
          (let ag1 = (if (state, action) \<notin> set (q_seen ag)
                      then ag\<lparr>state_seen := state_seen ag @ [state],
                              action_seen := action_seen ag @ [action]\<rparr>
                      else ag);
               ag2 = ag1\<lparr>q_seen := q_seen ag1 @ [(state, action)]\<rparr>
           in case rd (visit ag2) state action of
                Inl e \<Rightarrow> (ag2, Inl e)
              | Inr v \<Rightarrow> (ag2\<lparr>visit := (visit ag2)((state, action) \<mapsto> v + 1)\<rparr>, Inr action)))"

definition mc_step :: "mcagent \<Rightarrow> rng \<Rightarrow> (string \<times> pyval) list \<Rightarrow> (action \<times> int) list
    \<Rightarrow> mcagent \<times> (error + action)" where
  "mc_step = mc_step_with loc_tuple"

text \<open>
  The averaging loop of \<open>MonteCarloAgent.update\<close> over the zipped buffers, on the value
  table: \<open>self.q.loc[s, a] += self.step_size * (reward - self.q.loc[s, a])\<close>. Both reads of
  the cell return the same value. A raise leaves the cells written so far written.
\<close>

fun mc_loop :: "read \<Rightarrow> real \<Rightarrow> real \<Rightarrow> table \<Rightarrow> (state \<times> action) list
    \<Rightarrow> table \<times> error option" where
  "mc_loop rd st reward t [] = (t, None)"
| "mc_loop rd st reward t ((s, a) # rest) =
     (case rd t s a of
        Inl e \<Rightarrow> (t, Some e)
      | Inr v \<Rightarrow> mc_loop rd st reward (t((s, a) \<mapsto> v + st * (reward - v))) rest)"

text \<open>\<open>MonteCarloAgent.update\<close>: the buffers are cleared when the loop has ended.\<close>

definition mc_update_with :: "read \<Rightarrow> mcagent \<Rightarrow> (string \<times> pyval) list \<Rightarrow> action
    \<Rightarrow> mcagent \<times> error option" where
  "mc_update_with rd ag state_dict action =
     (let state = map snd state_dict in
      case rd (R ag) state action of
        Inl e \<Rightarrow> (ag, Some e)
      | Inr reward \<Rightarrow>
          (case mc_loop rd (step_size ag) reward (q ag) (zip (state_seen ag) (action_seen ag)) of
             (q', Some e) \<Rightarrow> (ag\<lparr>q := q'\<rparr>, Some e)
           | (q', None) \<Rightarrow>
               (ag\<lparr>q := q', state_seen := [], action_seen := [], q_seen := []\<rparr>, None)))"

definition mc_update :: "mcagent \<Rightarrow> (string \<times> pyval) list \<Rightarrow> action \<Rightarrow> mcagent \<times> error option" where
  "mc_update = mc_update_with loc_tuple"

text \<open>
  The calls of \<open>step\<close> made during one game, in order, each with the values the random
  module hands out, up to the first call that raises: the agent as the calls leave it.
\<close>

fun mc_steps :: "read \<Rightarrow> mcagent \<Rightarrow> (rng \<times> (string \<times> pyval) list \<times> (action \<times> int) list) list
    \<Rightarrow> mcagent \<times> error option" where
  "mc_steps rd ag [] = (ag, None)"
| "mc_steps rd ag ((g, state_dict, actions_dict) # rest) =
     (case mc_step_with rd ag g state_dict actions_dict of
        (ag1, Inl e) \<Rightarrow> (ag1, Some e)
      | (ag1, Inr a) \<Rightarrow> mc_steps rd ag1 rest)"

section \<open>Cards and deck (cards.py)\<close>

record card =
  color :: pyval
  cvalue :: pyval

definition Card :: "pyval \<Rightarrow> pyval \<Rightarrow> card" where
  "Card c v = \<lparr>color = c, cvalue = v\<rparr>"

text \<open>\<open>Card.evaluate_card\<close>: True, or None (which counts as false) when no test holds.\<close>

definition evaluate_card :: "card \<Rightarrow> pyval \<Rightarrow> pyval \<Rightarrow> bool" where
  "evaluate_card c open_c open_v \<longleftrightarrow>
     color c = open_c \<or> cvalue c = open_v \<or> cvalue c \<in> set [PStr ''COL'', PStr ''PL4'']"

text \<open>
  A Python list grows at its end (\<open>append\<close>) and \<open>pop()\<close> takes its last element: the
  top of a pile is the last element of the list.
\<close>

record deck =
  cards :: "card list"
  cards_disc :: "card list"

definition cards_zero :: "card list" where
  "cards_zero = map (\<lambda>c. Card (PStr c) (PInt 0)) colours"

definition cards_normal :: "card list" where
  "cards_normal =
     concat (replicate 2 (concat (map (\<lambda>c. map (\<lambda>v. Card (PStr c) (PInt v)) [1..9]) colours)))"

definition cards_action :: "card list" where
  "cards_action =
     concat (replicate 2
       (concat (map (\<lambda>c. map (\<lambda>v. Card (PStr c) (PStr v)) [''SKI'', ''REV'', ''PL2'']) colours)))"

definition cards_wild :: "card list" where
  "cards_wild = concat (replicate 4 (map (\<lambda>v. Card (PStr ''WILD'') (PStr v)) [''COL'', ''PL4'']))"

definition cards_all :: "card list" where
  "cards_all = cards_normal @ cards_action @ cards_zero @ cards_wild"


definition discard :: "deck \<Rightarrow> card \<Rightarrow> deck" where
  "discard d c = d\<lparr>cards_disc := cards_disc d @ [c]\<rparr>"


text \<open>\<open>Deck.draw_from_deck\<close>; \<open>pop()\<close> on an empty list raises IndexError.\<close>

definition draw_from_deck :: "deck \<Rightarrow> error + (card \<times> deck)" where
  "draw_from_deck d =
     (let d1 = (if length (cards d) = 0 then d\<lparr>cards := cards_disc d, cards_disc := []\<rparr> else d)
      in if cards d1 = [] then Inl IndexError
         else Inr (last (cards d1), d1\<lparr>cards := butlast (cards d1)\<rparr>))"

section \<open>Players\<close>

record player =
  name :: string
  hand :: "card list"
  hand_play :: "card list"
  card_play :: card

text \<open>\<open>check_win\<close> of utils.py: True on an empty hand, None (false) otherwise.\<close>

definition check_win :: "player \<Rightarrow> bool" where
  "check_win p \<longleftrightarrow> length (hand p) = 0"

text \<open>
  Modelled from the spec: \<open>Player.evaluate_hand\<close> (players.py is not among the
  sources). The playable sub-view of the hand is recomputed against the open card.
\<close>

definition evaluate_hand :: "player \<Rightarrow> card \<Rightarrow> player" where
  "evaluate_hand p card_open =
     p\<lparr>hand_play := filter (\<lambda>c. evaluate_card c (color card_open) (cvalue card_open)) (hand p)\<rparr>"

text \<open>
  Modelled from the spec: \<open>Player.draw\<close> (players.py is not among the sources). One
  card is drawn from the deck and joins the hand; the playable sub-view is recomputed.
\<close>

definition player_draw :: "player \<Rightarrow> deck \<Rightarrow> card \<Rightarrow> error + (player \<times> deck)" where
  "player_draw p d card_open =
     (case draw_from_deck d of
        Inl e \<Rightarrow> Inl e
      | Inr (c, d') \<Rightarrow> Inr (evaluate_hand (p\<lparr>hand := hand p @ [c]\<rparr>) card_open, d'))"

text \<open>
  Modelled from the spec: \<open>Player.play_counter\<close> (players.py is not among the
  sources). In the spec's words the player plays the card: it is removed from the hand and
  it is the new open card. The result is the player and the new open card. The method
  is also handed the deck, and the spec does not say what it does with it: that is the
  parameter \<open>dk\<close>, from the deck and the card played to the deck after the play.
\<close>

definition play_counter :: "(deck \<Rightarrow> card \<Rightarrow> deck) \<Rightarrow> player \<Rightarrow> deck \<Rightarrow> card \<Rightarrow> card
    \<Rightarrow> player \<times> deck \<times> card" where
  "play_counter dk p d card_open plus_card =
     (p\<lparr>hand := remove1 plus_card (hand p)\<rparr>, dk d plus_card, plus_card)"


section \<open>Turn engine (turn.py)\<close>

record turn =
  deck :: deck
  player_1 :: player
  player_2 :: player
  card_open :: card
  count :: int

text \<open>
  The two players of a turn; \<open>action_plus\<close> is called with one of them as \<open>player\<close>
  and the other as \<open>opponent\<close>.
\<close>

datatype who = P1 | P2

fun other :: "who \<Rightarrow> who" where
  "other P1 = P2"
| "other P2 = P1"

fun get_player :: "turn \<Rightarrow> who \<Rightarrow> player" where
  "get_player t P1 = player_1 t"
| "get_player t P2 = player_2 t"

fun set_player :: "turn \<Rightarrow> who \<Rightarrow> player \<Rightarrow> turn" where
  "set_player t P1 p = t\<lparr>player_1 := p\<rparr>"
| "set_player t P2 p = t\<lparr>player_2 := p\<rparr>"

text \<open>One call \<open>player.draw(self.deck, self.card_open)\<close> inside the turn engine.\<close>

definition turn_draw :: "turn \<Rightarrow> who \<Rightarrow> error + turn" where
  "turn_draw t w =
     (case player_draw (get_player t w) (deck t) (card_open t) of
        Inl e \<Rightarrow> Inl e
      | Inr (p, d) \<Rightarrow> Inr (set_player (t\<lparr>deck := d\<rparr>) w p))"







text \<open>\<open>str(n)\<close> for an int: its decimal digits, with a minus sign when negative.\<close>

fun digits :: "nat \<Rightarrow> string" where
  "digits n = (if n < 10 then [''0123456789'' ! n] else digits (n div 10) @ [''0123456789'' ! (n mod 10)])"

declare digits.simps [simp del]

definition py_str :: "int \<Rightarrow> string" where
  "py_str i = (if i < 0 then ''-'' @ digits (nat (- i)) else digits (nat i))"

text \<open>
  One scan of a hand for a card of the penalty type, as in \<open>action_plus\<close>: the first such
  card is played as a counter, the chain counter goes up, and the scan stops. The result
  is the flag \<open>hit\<close> and the new state. The call of \<open>play_counter\<close> is a statement: the
  open card it yields is not used, and \<open>action_plus\<close> never assigns \<open>self.card_open\<close>,
  which stays what it was.
\<close>

definition counter :: "(deck \<Rightarrow> card \<Rightarrow> deck) \<Rightarrow> turn \<Rightarrow> who \<Rightarrow> int \<Rightarrow> bool \<times> turn" where
  "counter dk t w penalty =
     (case find (\<lambda>c. cvalue c = PStr (''PL'' @ py_str penalty)) (hand (get_player t w)) of
        None \<Rightarrow> (False, t)
      | Some plus_card \<Rightarrow>
          (case play_counter dk (get_player t w) (deck t) (card_open t) plus_card of
             (p, d, c) \<Rightarrow> (True, (set_player (t\<lparr>deck := d\<rparr>) w p)\<lparr>count := count t + 1\<rparr>)))"

text \<open>
  The number of cards in the two hands. A scan never adds a card to a hand, and a scan
  that hits takes one away: this is why the loop of \<open>action_plus\<close> ends.
\<close>

definition hands :: "turn \<Rightarrow> nat" where
  "hands t = length (hand (player_1 t)) + length (hand (player_2 t))"

lemma find_Some_set: "find P xs = Some x \<Longrightarrow> x \<in> set xs \<and> P x"
  by (induction xs) (auto split: if_splits)

lemma length_pred_less: "x \<in> set xs \<Longrightarrow> length xs - Suc 0 < length xs"
  by (cases xs) auto

lemma counter_le: "hands (snd (counter dk t w p)) \<le> hands t"
  by (cases w)
     (auto simp: counter_def play_counter_def hands_def length_remove1
           split: option.splits)

lemma counter_hit: "fst (counter dk t w p) \<Longrightarrow> hands (snd (counter dk t w p)) < hands t"
  by (cases w)
     (auto simp: counter_def play_counter_def hands_def length_remove1
           length_pred_less
           dest!: find_Some_set split: option.splits)

text \<open>
  The \<open>while hit\<close> loop of \<open>action_plus\<close>, entered with \<open>hit\<close> true; \<open>w\<close> is the
  active player. The result says whether the function returned from inside the loop
  (a win check succeeded), and gives the state.
\<close>

function chain :: "(deck \<Rightarrow> card \<Rightarrow> deck) \<Rightarrow> turn \<Rightarrow> who \<Rightarrow> int \<Rightarrow> bool \<times> turn" where
  "chain dk t w penalty =
     (let r1 = counter dk t (other w) penalty; t1 = snd r1 in
      if check_win (get_player t1 (other w)) then (True, t1)
      else
        (let r2 = (if fst r1 then counter dk t1 w penalty else (False, t1)); t2 = snd r2 in
         if check_win (get_player t2 w) then (True, t2)
         else if fst r2 then chain dk t2 w penalty else (False, t2)))"
  by pat_completeness auto
termination
proof (relation "measure (\<lambda>(dk, t, w, p). hands t)", goal_cases)
  case 1
  show ?case by simp
next
  case (2 dk t w penalty r1 t1 r2 t2)
  have "hands t2 < hands t1"
    using 2 counter_hit [of dk t1 w penalty] by (simp split: if_splits)
  moreover have "hands t1 \<le> hands t"
    using 2 counter_le [of dk t "other w" penalty] by simp
  ultimately show ?case by simp
qed

declare chain.simps [simp del]

text \<open>\<open>for i in range(n)\<close>: the player draws.\<close>

fun draws :: "nat \<Rightarrow> who \<Rightarrow> turn \<Rightarrow> error + turn" where
  "draws 0 w t = Inr t"
| "draws (Suc n) w t = (case turn_draw t w of Inl e \<Rightarrow> Inl e | Inr t' \<Rightarrow> draws n w t')"

text \<open>\<open>Turn.action_plus\<close> with \<open>player = w\<close> and \<open>opponent = other w\<close>.\<close>

definition action_plus :: "(deck \<Rightarrow> card \<Rightarrow> deck) \<Rightarrow> turn \<Rightarrow> who \<Rightarrow> int \<Rightarrow> error + turn" where
  "action_plus dk t w penalty =
     (case chain dk (t\<lparr>count := 1\<rparr>) w penalty of
        (True, t') \<Rightarrow> Inr t'
      | (False, t') \<Rightarrow>
          if count t' mod 2 = 0
          then draws (nat (count t' * penalty)) w t'
          else draws (nat (count t' * penalty)) (other w) t')"

text \<open>
  The penalty chain in the specification's words, on the two hands and the counter. The
  player who must respond is scanned for a card of the penalty value. Without one the
  chain ends. With one, the card leaves the hand and the counter goes up; the win check
  follows at once, and an empty hand ends the chain; otherwise the other player must
  respond. The result is the win flag, the hand of the player who had to respond first,
  the hand of the other player, and the counter.
\<close>

fun swap_hands :: "bool \<times> card list \<times> card list \<times> int \<Rightarrow> bool \<times> card list \<times> card list \<times> int" where
  "swap_hands (win, h1, h2, n) = (win, h2, h1, n)"

function spec_chain :: "pyval \<Rightarrow> card list \<Rightarrow> card list \<Rightarrow> int
    \<Rightarrow> bool \<times> card list \<times> card list \<times> int" where
  "spec_chain v responder waiting n =
     (case find (\<lambda>c. cvalue c = v) responder of
        None \<Rightarrow> (False, responder, waiting, n)
      | Some c \<Rightarrow>
          if remove1 c responder = [] then (True, [], waiting, n + 1)
          else swap_hands (spec_chain v waiting (remove1 c responder) (n + 1)))"
  by pat_completeness auto
termination
  by (relation "measure (\<lambda>(v, responder, waiting, n). length responder + length waiting)")
     (auto simp: length_remove1 length_pred_less dest!: find_Some_set)

declare spec_chain.simps [simp del]

section \<open>Game loop (game.py)\<close>

text \<open>The choice of the active player at the top of the loop body.\<close>

definition active_player :: "bool \<Rightarrow> int \<Rightarrow> who" where
  "active_player starting_is_player_1 turn_no =
     (if starting_is_player_1
      then (if turn_no mod 2 = 1 then P1 else P2)
      else (if turn_no mod 2 = 0 then P1 else P2))"

text \<open>
  The turn-flow bookkeeping at the bottom of the loop body, reached when nobody has won:
  the new \<open>turn_no\<close> from the value of the card played and the chain counter.
\<close>

definition turn_flow :: "int \<Rightarrow> pyval \<Rightarrow> int \<Rightarrow> int" where
  "turn_flow turn_no v cnt =
     (let n1 = (if v \<in> set [PStr ''REV'', PStr ''SKIP''] then turn_no - 1 else turn_no)
      in if cnt > 0 \<and> cnt mod 2 = 0 then n1 - 1 else n1)"

text \<open>The next iteration starts with \<open>self.turn_no += 1\<close>.\<close>

definition next_turn_no :: "int \<Rightarrow> pyval \<Rightarrow> int \<Rightarrow> int" where
  "next_turn_no turn_no v cnt = turn_flow turn_no v cnt + 1"

section \<open>Closed forms and sample inputs\<close>

text \<open>
  The reward table in closed form (shown below to be what \<open>rewards\<close> builds over the
  enumerated space), a dictionary with given values, and sample agents and cards.
  \<open>ql_game1\<close> is the new Q-learning agent after one update with the terminal pair of a
  game.
\<close>

definition R_table :: table where
  "R_table = (\<lambda>(s, a). if is_state s \<and> a \<in> set actions
                then Some (if sum_list (map int_of (held s)) = 0 then 1 else 0) else None)"

definition as_dict :: "state \<Rightarrow> (string \<times> pyval) list" where
  "as_dict s = zip (''OPEN'' # map fst states_dict) s"

definition ql_fresh :: qagent where
  "ql_fresh = \<lparr>epsilon = 0, step_size = 1 / 10, R = R_table, q = zeros, visit = zeros,
      prev_state = None, prev_action = None\<rparr>"

definition ql_sample :: qagent where
  "ql_sample = ql_fresh\<lparr>q := zeros((state_one_red, ''RED'') \<mapsto> 2 / 10),
      prev_state := Some state_one_red, prev_action := Some ''RED''\<rparr>"


definition red1 :: card where
  "red1 = Card (PStr ''RED'') (PInt 1)"

definition blu2 :: card where
  "blu2 = Card (PStr ''BLU'') (PInt 2)"

text \<open>
  The invariant of the episode buffers, and a sample episode: a new Monte Carlo agent,
  the same agent with \<open>epsilon\<close> 1, calls of \<open>step\<close> on the one-red-card state with only
  the action \<open>RED\<close> possible, and the agents these calls lead to.
\<close>

definition buffers_ok :: "mcagent \<Rightarrow> bool" where
  "buffers_ok ag \<longleftrightarrow>
     length (state_seen ag) = length (action_seen ag) \<and>
     set (zip (state_seen ag) (action_seen ag)) \<subseteq> set (q_seen ag)"

definition mc_fresh :: mcagent where
  "mc_fresh = \<lparr>epsilon = 0, step_size = 1 / 2, R = R_table, q = zeros, visit = zeros,
      state_seen = [], action_seen = [], q_seen = []\<rparr>"

definition mc_explore :: mcagent where
  "mc_explore = mc_fresh\<lparr>epsilon := 1\<rparr>"

definition mc_recorded :: mcagent where
  "mc_recorded = mc_explore\<lparr>state_seen := [state_one_red], action_seen := [''RED''],
      q_seen := [(state_one_red, ''RED'')]\<rparr>"

definition rng_sample :: rng where
  "rng_sample = \<lparr>rnd_random = 1 / 2, rnd_choice = 0, rnd_shuffle = (\<lambda>xs. xs)\<rparr>"

definition only_RED :: "(action \<times> int) list" where
  "only_RED = map (\<lambda>a. (a, if a = ''RED'' then 1 else 0)) actions"

definition mc_call :: "rng \<times> (string \<times> pyval) list \<times> (action \<times> int) list" where
  "mc_call = (rng_sample, as_dict state_one_red, only_RED)"

definition mc_after1 :: mcagent where
  "mc_after1 = mc_fresh\<lparr>visit := zeros((state_one_red, ''RED'') \<mapsto> 1),
      state_seen := [state_one_red], action_seen := [''RED''],
      q_seen := [(state_one_red, ''RED'')]\<rparr>"

definition mc_after2 :: mcagent where
  "mc_after2 = mc_after1\<lparr>visit := zeros((state_one_red, ''RED'') \<mapsto> 2),
      q_seen := [(state_one_red, ''RED''), (state_one_red, ''RED'')]\<rparr>"

text \<open>
  The number of cards in the two piles, and in the piles and the two hands together;
  sample cards, players and turn states, and a player as constructed, with no cards.
\<close>

definition piles :: "deck \<Rightarrow> nat" where
  "piles d = length (cards d) + length (cards_disc d)"


definition pl2 :: card where
  "pl2 = Card (PStr ''BLU'') (PStr ''PL2'')"

definition sample_deck :: deck where
  "sample_deck = \<lparr>cards = [red1, blu2, red1, blu2, red1], cards_disc = [pl2]\<rparr>"

definition player_A :: "card list \<Rightarrow> player" where
  "player_A h = \<lparr>name = ''A'', hand = h, hand_play = [], card_play = pl2\<rparr>"

definition player_B :: "card list \<Rightarrow> player" where
  "player_B h = \<lparr>name = ''B'', hand = h, hand_play = [], card_play = red1\<rparr>"

definition sample_turn :: "card list \<Rightarrow> card list \<Rightarrow> turn" where
  "sample_turn ha hb = \<lparr>deck = sample_deck, player_1 = player_A ha, player_2 = player_B hb,
      card_open = pl2, count = 0\<rparr>"

definition short_turn :: turn where
  "short_turn = (sample_turn [red1] [blu2])\<lparr>deck := \<lparr>cards = [red1], cards_disc = []\<rparr>\<rparr>"


section \<open>Properties\<close>

lemma states_iff: "s \<in> set states \<longleftrightarrow> is_state s"
  by (simp add: states_def is_state_def product_lists_set)


subsection \<open>The state space\<close>

lemma count_ok_iff: "x \<in> PInt ` {0..c} \<longleftrightarrow> count_ok x c"
  by (cases x) auto

lemma ranges_eq:
  "states_ranges = map PStr colours # map (\<lambda>val. map PInt [0..val]) spec_ceilings"
  by (simp add: states_ranges_def states_dict_def norm_cards_def spec_cards_def wild_cards_def
      norm_cards_play_def spec_cards_play_def colours_def spec_ceilings_def)

lemma all_lt7: "(\<forall>i<7. P (i::nat)) \<longleftrightarrow> P 0 \<and> P 1 \<and> P 2 \<and> P 3 \<and> P 4 \<and> P 5 \<and> P 6"
proof -
  have "i < 7 \<longleftrightarrow> i = 0 \<or> i = 1 \<or> i = 2 \<or> i = 3 \<or> i = 4 \<or> i = 5 \<or> i = 6" for i :: nat
    by arith
  then show ?thesis by auto
qed

lemma keep_Cons:
  assumes "length t = 16"
  shows "states_keep (x # t) \<longleftrightarrow> list_all2 py_ge (take 7 t) (drop 9 t)"
  using assms by (simp add: states_keep_def list_all2_conv_all_nth all_lt7 add.commute)

lemma is_state_iff:
  "is_state s \<longleftrightarrow> (\<exists>c t. s = PStr c # t \<and> c \<in> set colours \<and> spec_state t)"
proof -
  have len: "list_all2 count_ok t spec_ceilings \<Longrightarrow> length t = 16" for t
    by (auto dest: list_all2_lengthD simp: spec_ceilings_def)
  show ?thesis
    unfolding is_state_def ranges_eq spec_state_def
    by (auto simp: list_all2_Cons2 list_all2_map2 count_ok_iff keep_Cons len)
qed

lemma is_state_empty: "is_state state_empty"
  by (simp add: is_state_iff state_empty_def colours_def spec_state_def spec_ceilings_def
      eval_nat_numeral)

lemma is_state_one_red: "is_state state_one_red"
  by (simp add: is_state_iff state_one_red_def colours_def spec_state_def spec_ceilings_def
      eval_nat_numeral)

text \<open>
  C7, as amended. The enumeration returns exactly the tuples made of one of the four
  colour names followed by the sixteen integer components the claim describes: that is
  seventeen components, the first of them a string.
\<close>

theorem states_exact:
  "set states = {PStr c # t | c t. c \<in> set colours \<and> spec_state t}"
  using states_iff is_state_iff by auto

text \<open>
  C7, as stated, fails: the first enumerated state is not a tuple of sixteen integers.
\<close>

theorem states_not_integer_tuples:
  "state_empty \<in> set states \<and> \<not> spec_state state_empty \<and> state_empty ! 0 = PStr ''RED''"
  using is_state_empty
  by (simp add: states_iff state_empty_def spec_state_def spec_ceilings_def)

subsection \<open>The reward table\<close>

lemma py_sum_counts:
  "list_all2 count_ok xs cs \<Longrightarrow> py_sum xs = Inr (sum_list (map int_of xs))"
proof (induction xs cs rule: list_all2_induct)
  case Nil
  then show ?case by simp
next
  case (Cons x xs c cs)
  then show ?case by (cases x) simp_all
qed

lemma states_t_map:
  "(\<forall>s\<in>set sts. py_sum (held s) = Inr (f s))
   \<Longrightarrow> states_t sts = Inr (map (\<lambda>s. min (f s) 1) sts)"
  by (induction sts) simp_all

lemma held_sum_state:
  assumes "is_state s"
  shows "py_sum (held s) = Inr (sum_list (map int_of (held s)))"
proof -
  from assms obtain c t where s: "s = PStr c # t" and t: "spec_state t"
    unfolding is_state_iff by blast
  from t have "list_all2 count_ok (take 9 t) (take 9 spec_ceilings)"
    unfolding spec_state_def by (blast intro: list_all2_takeI)
  then have "py_sum (take 9 t) = Inr (sum_list (map int_of (take 9 t)))"
    by (rule py_sum_counts)
  then show ?thesis by (simp add: s held_def)
qed

lemma rewards_states:
  "rewards states actions =
     Inr (\<lambda>(s, a). if is_state s \<and> a \<in> set actions
                    then Some (if sum_list (map int_of (held s)) = 0 then 1 else 0) else None)"
proof -
  have "states_t states = Inr (map (\<lambda>s. min (sum_list (map int_of (held s))) 1) states)"
    by (rule states_t_map) (simp add: states_iff held_sum_state)
  then show ?thesis
    by (auto simp: rewards_def map_of_zip_map states_iff fun_eq_iff)
qed

lemma reward_of_eq:
  "reward_of s a =
     (if is_state s \<and> a \<in> set actions
      then Inr (if sum_list (map int_of (held s)) = 0 then 1 else 0) else Inl KeyError)"
  by (simp add: reward_of_def rewards_states loc_def)

text \<open>
  C1, as amended. For every enumerated state and each of the nine actions the reward
  is the same: it is 1 if and only if the held counts sum to 0 (the sum clamped to
  \<open>{0, 1}\<close> is 0), and 0 otherwise.
\<close>

theorem rewards_winning:
  "length actions = 9 \<and>
   (\<forall>s\<in>set states. \<forall>a\<in>set actions.
      \<exists>n. py_sum (held s) = Inr n \<and> reward_of s a = Inr (if n = 0 then 1 else 0))"
  by (simp add: states_iff reward_of_eq held_sum_state) (simp add: actions_def)

theorem rewards_winning_witness:
  "state_empty \<in> set states \<and> ''COL'' \<in> set actions \<and>
   py_sum (held state_empty) = Inr 0 \<and> reward_of state_empty ''COL'' = Inr 1"
proof -
  have a: "state_empty \<in> set states"
    using is_state_empty by (simp add: states_iff)
  have b: "''COL'' \<in> set actions" by (simp add: actions_def)
  have c: "py_sum (held state_empty) = Inr 0"
    by (simp add: state_empty_def held_def eval_nat_numeral)
  from rewards_winning a b c show ?thesis by fastforce
qed

text \<open>
  C1, as stated, fails: a state holding exactly one card has a held-count sum of 1,
  within the claimed bound, and its reward is 0.
\<close>

theorem rewards_one_card_zero:
  "state_one_red \<in> set states \<and> py_sum (held state_one_red) = Inr 1 \<and>
   reward_of state_one_red ''RED'' = Inr 0"
  using is_state_one_red
  by (simp add: states_iff reward_of_eq)
     (simp add: state_one_red_def held_def actions_def eval_nat_numeral)


subsection \<open>Tables of a new agent\<close>

lemma zeros_eq: "zeros = (\<lambda>(s, a). if is_state s \<and> a \<in> set actions then Some 0 else None)"
  by (simp add: zeros_def states_iff)

lemma rewards_R_table: "rewards states actions = Inr R_table"
  by (simp add: rewards_states R_table_def)


lemma values_as_dict: "length s = 17 \<Longrightarrow> map snd (as_dict s) = s"
  by (simp add: as_dict_def states_dict_def norm_cards_def spec_cards_def wild_cards_def
      norm_cards_play_def spec_cards_play_def)

lemma length_state_empty: "length state_empty = 17"
  by (simp add: state_empty_def)

lemma length_state_one_red: "length state_one_red = 17"
  by (simp add: state_one_red_def)

lemma RED_action: "''RED'' \<in> set actions"
  by (simp add: actions_def)

lemma R_table_empty: "R_table (state_empty, ''RED'') = Some 1"
  using is_state_empty RED_action
  by (simp add: R_table_def) (simp add: state_empty_def held_def eval_nat_numeral)

lemma zeros_one_red: "zeros (state_one_red, ''RED'') = Some 0"
  using is_state_one_red RED_action by (simp add: zeros_eq)

lemma zeros_empty: "zeros (state_empty, ''RED'') = Some 0"
  using is_state_empty RED_action by (simp add: zeros_eq)

lemma states_differ: "state_one_red \<noteq> state_empty"
  by (simp add: state_one_red_def state_empty_def eval_nat_numeral)

subsection \<open>Q-learning update\<close>


lemma ql_update_cell_read:
  assumes "prev_state ag = Some ps" and "prev_action ag = Some pa"
    and "q ag (ps, pa) = Some prev_q"
    and "q ag (map snd state_dict, a) = Some curr_q"
    and "R ag (map snd state_dict, a) = Some r"
    and "visit ag (ps, pa) = Some n"
  shows "ql_update_with loc ag state_dict a =
           (ag\<lparr>q := (q ag)((ps, pa) \<mapsto>
                      (if r = 0 then prev_q + step_size ag * (r + curr_q - prev_q)
                       else prev_q + step_size ag * (r - prev_q))),
                visit := (visit ag)((ps, pa) \<mapsto> n + 1),
                prev_state := Some (map snd state_dict),
                prev_action := Some a\<rparr>, None)"
  using assms by (simp add: ql_update_with_def loc_def Let_def)

lemma ql_update_raises:
  "prev_state ag = Some ps \<Longrightarrow> ql_update ag state_dict a = (ag, Some KeyError)"
  by (simp add: ql_update_def ql_update_with_def loc_tuple_def Let_def split: option.splits)

lemma possible_only_RED: "map fst (filter (\<lambda>(key, val). val \<noteq> 0) only_RED) = [''RED'']"
  by (simp add: only_RED_def actions_def)

lemma ql_step_reads_cell:
  "ql_step ql_sample rng_sample (as_dict state_one_red) only_RED = Inr ''RED''"
  by (simp add: ql_step_def select_action_def possible_only_RED values_as_dict
      length_state_one_red ql_sample_def ql_fresh_def rng_sample_def loc_def)


text \<open>
  C2. The agent holds a previous pair with value 0.2, its step size is 0.1, and
  \<open>update\<close> is called with a terminal pair of reward 1. The call raises KeyError at its
  first read, \<open>self.q.loc[self.prev_state, self.prev_action]\<close>, and leaves the agent as
  it was: the value stays 0.2, the visit count 0 and the previous pair. The read of
  \<open>step\<close>, which wraps the state in a list, returns on the same table, and with that
  read the update gives the value 0.28 and the visit count 1.
\<close>

theorem ql_update_after_first_raises:
  "prev_state ql_sample = Some state_one_red \<and> prev_action ql_sample = Some ''RED'' \<and>
   q ql_sample (state_one_red, ''RED'') = Some (2 / 10) \<and> step_size ql_sample = 1 / 10 \<and>
   R ql_sample (state_empty, ''RED'') = Some 1 \<and>
   ql_update ql_sample (as_dict state_empty) ''RED'' = (ql_sample, Some KeyError) \<and>
   ql_step ql_sample rng_sample (as_dict state_one_red) only_RED = Inr ''RED'' \<and>
   q (fst (ql_update_with loc ql_sample (as_dict state_empty) ''RED'')) (state_one_red, ''RED'')
     = Some (28 / 100) \<and>
   visit (fst (ql_update_with loc ql_sample (as_dict state_empty) ''RED''))
     (state_one_red, ''RED'') = Some 1"
proof -
  have f: "prev_state ql_sample = Some state_one_red" "prev_action ql_sample = Some ''RED''"
    "q ql_sample (state_one_red, ''RED'') = Some (2 / 10)" "step_size ql_sample = 1 / 10"
    "R ql_sample (state_empty, ''RED'') = Some 1"
    "visit ql_sample (state_one_red, ''RED'') = Some 0"
    "q ql_sample (state_empty, ''RED'') = Some 0"
    using states_differ
    by (simp_all add: ql_sample_def ql_fresh_def R_table_empty zeros_one_red zeros_empty)
  have v: "map snd (as_dict state_empty) = state_empty"
    by (simp add: values_as_dict length_state_empty)
  have r: "ql_update ql_sample (as_dict state_empty) ''RED'' = (ql_sample, Some KeyError)"
    using f(1) by (rule ql_update_raises)
  have u: "ql_update_with loc ql_sample (as_dict state_empty) ''RED'' =
      (ql_sample\<lparr>q := (q ql_sample)((state_one_red, ''RED'') \<mapsto>
                      (if (1::real) = 0 then 2 / 10 + step_size ql_sample * (1 + 0 - 2 / 10)
                       else 2 / 10 + step_size ql_sample * (1 - 2 / 10))),
                visit := (visit ql_sample)((state_one_red, ''RED'') \<mapsto> 0 + 1),
                prev_state := Some (map snd (as_dict state_empty)),
                prev_action := Some ''RED''\<rparr>, None)"
    by (rule ql_update_cell_read) (simp_all add: f v)
  have "q (fst (ql_update_with loc ql_sample (as_dict state_empty) ''RED''))
          (state_one_red, ''RED'') = Some (28 / 100)"
    "visit (fst (ql_update_with loc ql_sample (as_dict state_empty) ''RED''))
          (state_one_red, ''RED'') = Some 1"
    unfolding u by (simp_all add: f(4))
  with f r ql_step_reads_cell show ?thesis by simp
qed


subsection \<open>Drawing from the deck\<close>

text \<open>
  C8, as amended. A draw from a non-empty draw pile removes and returns its top card.
  A draw from an empty draw pile with a non-empty discard pile makes the discard pile
  the draw pile in its existing order, empties the discard pile, and removes and returns
  the top card of the recycled pile. A draw with both piles empty raises IndexError.
\<close>

theorem draw_from_deck_cases:
  "(cards d \<noteq> [] \<longrightarrow>
      draw_from_deck d = Inr (last (cards d), d\<lparr>cards := butlast (cards d)\<rparr>)) \<and>
   (cards d = [] \<and> cards_disc d \<noteq> [] \<longrightarrow>
      draw_from_deck d =
        Inr (last (cards_disc d), d\<lparr>cards := butlast (cards_disc d), cards_disc := []\<rparr>)) \<and>
   (cards d = [] \<and> cards_disc d = [] \<longrightarrow> draw_from_deck d = Inl IndexError)"
  by (simp add: draw_from_deck_def)

theorem draw_from_deck_cases_witness:
  "draw_from_deck \<lparr>cards = [red1, blu2], cards_disc = [red1]\<rparr>
     = Inr (blu2, \<lparr>cards = [red1], cards_disc = [red1]\<rparr>) \<and>
   draw_from_deck \<lparr>cards = [], cards_disc = [red1, blu2]\<rparr>
     = Inr (blu2, \<lparr>cards = [red1], cards_disc = []\<rparr>)"
  using draw_from_deck_cases [of "\<lparr>cards = [red1, blu2], cards_disc = [red1]\<rparr>"]
        draw_from_deck_cases [of "\<lparr>cards = [], cards_disc = [red1, blu2]\<rparr>"]
  by simp

text \<open>C8, as stated, fails: with both piles empty the call raises and returns no card.\<close>

theorem draw_from_empty_deck_fails:
  "draw_from_deck \<lparr>cards = [], cards_disc = []\<rparr> = Inl IndexError"
  by (simp add: draw_from_deck_def)

subsection \<open>Turn order\<close>

lemma no_SKIP_card: "PStr ''SKIP'' \<notin> cvalue ` set cards_all"
  by (simp add: cards_all_def cards_normal_def cards_action_def cards_zero_def cards_wild_def
      colours_def Card_def eval_nat_numeral upto.simps image_Un)

lemma retained_turn:
  "v = PStr ''REV'' \<or> v = PStr ''SKIP'' \<Longrightarrow> \<not> (cnt > 0 \<and> cnt mod 2 = 0)
   \<Longrightarrow> active_player b (next_turn_no n v cnt) = active_player b n"
  by (auto simp: active_player_def next_turn_no_def turn_flow_def)

text \<open>
  C3. The deck holds skip cards with the value \<open>SKI\<close> and no card with the value
  \<open>SKIP\<close>, which is what the game loop compares with: after a turn in which player 1
  plays a skip card and no penalty chain runs, the active role passes to player 2.
\<close>

theorem skip_card_alternates:
  "Card (PStr ''RED'') (PStr ''SKI'') \<in> set cards_all \<and>
   PStr ''SKIP'' \<notin> cvalue ` set cards_all \<and>
   active_player True 1 = P1 \<and>
   active_player True (next_turn_no 1 (PStr ''SKI'') 0) = P2"
  using no_SKIP_card
  by (simp add: cards_all_def cards_action_def colours_def Card_def eval_nat_numeral
      active_player_def next_turn_no_def turn_flow_def)

subsection \<open>Monte Carlo update\<close>


lemma mc_loop_frame: "p \<notin> set ps \<Longrightarrow> fst (mc_loop rd st r t ps) p = t p"
proof (induction ps arbitrary: t)
  case Nil
  then show ?case by simp
next
  case (Cons x ps)
  obtain s a where x: "x = (s, a)" by (cases x)
  from Cons show ?case
    by (cases "rd t s a") (auto simp: x)
qed

lemma mc_update_q:
  "p \<notin> set (zip (state_seen ag) (action_seen ag))
   \<Longrightarrow> q (fst (mc_update_with rd ag state_dict a)) p = q ag p"
  using mc_loop_frame [of p "zip (state_seen ag) (action_seen ag)" rd]
  by (auto simp: mc_update_with_def Let_def split: sum.splits prod.splits option.splits)
     (metis fst_conv)+

lemma mc_update_fields:
  "R (fst (mc_update_with rd ag state_dict a)) = R ag"
  "epsilon (fst (mc_update_with rd ag state_dict a)) = epsilon ag"
  "step_size (fst (mc_update_with rd ag state_dict a)) = step_size ag"
  "visit (fst (mc_update_with rd ag state_dict a)) = visit ag"
  by (auto simp: mc_update_with_def Let_def split: sum.splits prod.splits option.splits)

lemma mc_step_buffers:
  "buffers_ok ag \<Longrightarrow> buffers_ok (fst (mc_step_with rd ag g state_dict actions_dict))"
  by (auto simp: mc_step_with_def buffers_ok_def Let_def split: sum.splits)

lemma mc_step_records:
  "mc_step_with rd ag g state_dict actions_dict = (ag', Inr a)
   \<Longrightarrow> q_seen ag' = q_seen ag @ [(map snd state_dict, a)]"
  by (auto simp: mc_step_with_def Let_def split: sum.splits if_splits)

lemma mc_steps_buffers: "buffers_ok ag \<Longrightarrow> buffers_ok (fst (mc_steps rd ag calls))"
proof (induction calls arbitrary: ag)
  case Nil
  then show ?case by simp
next
  case (Cons c calls)
  obtain g sd ad where c: "c = (g, sd, ad)" by (cases c)
  from mc_step_buffers [OF Cons.prems, of rd g sd ad] Cons.IH show ?case
    by (auto simp: c split: prod.splits sum.splits)
qed


lemma mc_init_fresh: "mc_init 0 (1 / 2) = Inr mc_fresh"
  by (simp add: mc_init_def rewards_R_table mc_fresh_def)

lemma mc_update_raises: "mc_update ag state_dict a = (ag, Some KeyError)"
  by (simp add: mc_update_def mc_update_with_def loc_tuple_def)

lemma mc_step_greedy_raises:
  "mc_step mc_fresh rng_sample (as_dict state_one_red) only_RED = (mc_fresh, Inl KeyError)"
  by (simp add: mc_step_def mc_step_with_def select_action_def possible_only_RED
      loc_tuple_def mc_fresh_def rng_sample_def)

lemma mc_step_explore_raises:
  "mc_step mc_explore rng_sample (as_dict state_one_red) only_RED = (mc_recorded, Inl KeyError)"
  by (simp add: mc_step_def mc_step_with_def select_action_def possible_only_RED
      py_choice_def loc_tuple_def mc_explore_def mc_recorded_def mc_fresh_def rng_sample_def
      values_as_dict length_state_one_red)

lemma mc_steps_cell_read:
  "mc_steps loc mc_fresh [mc_call] = (mc_after1, None)"
  "mc_steps loc mc_fresh [mc_call, mc_call] = (mc_after2, None)"
  by (simp_all add: mc_call_def mc_step_with_def select_action_def possible_only_RED
      values_as_dict length_state_one_red mc_fresh_def rng_sample_def loc_def zeros_one_red
      mc_after1_def mc_after2_def)

lemma mc_update_cell_read:
  "mc_update_with loc mc_after2 (as_dict state_empty) ''RED'' =
     (mc_after2\<lparr>q := zeros((state_one_red, ''RED'') \<mapsto> 1 / 2),
                state_seen := [], action_seen := [], q_seen := []\<rparr>, None)"
  "mc_update_with loc mc_after1 (as_dict state_empty) ''RED'' =
     (mc_after1\<lparr>q := zeros((state_one_red, ''RED'') \<mapsto> 1 / 2),
                state_seen := [], action_seen := [], q_seen := []\<rparr>, None)"
  by (simp_all add: mc_update_with_def values_as_dict length_state_empty mc_after2_def
      mc_after1_def mc_fresh_def R_table_empty loc_def zeros_one_red)

text \<open>
  C5. A Monte Carlo agent with step size 0.5 and all values 0 visits one pair, taking
  the exploration branch: the pair is recorded, and the call raises KeyError at the
  visit count. The update with a terminal pair of reward 1 then raises at its first
  statement, the read of the reward: the value of the visited pair stays 0 and the
  buffers stay full. On the exploitation branch \<open>step\<close> raises at its first read of
  the value table, and the update of a new agent raises as well. With the read of
  \<open>QLearningAgent.step\<close>, which wraps the state in a list, two visits of the pair and the
  update end with the value 0.5, written once, and with empty buffers.
\<close>

theorem mc_episode_raises:
  "mc_step mc_explore rng_sample (as_dict state_one_red) only_RED
     = (mc_recorded, Inl KeyError) \<and>
   q_seen mc_recorded = [(state_one_red, ''RED'')] \<and>
   step_size mc_recorded = 1 / 2 \<and>
   q mc_recorded (state_one_red, ''RED'') = Some 0 \<and>
   R mc_recorded (state_empty, ''RED'') = Some 1 \<and>
   mc_update mc_recorded (as_dict state_empty) ''RED'' = (mc_recorded, Some KeyError) \<and>
   mc_step mc_fresh rng_sample (as_dict state_one_red) only_RED = (mc_fresh, Inl KeyError) \<and>
   mc_update mc_fresh (as_dict state_empty) ''RED'' = (mc_fresh, Some KeyError) \<and>
   mc_steps loc mc_fresh [mc_call, mc_call] = (mc_after2, None) \<and>
   mc_update_with loc mc_after2 (as_dict state_empty) ''RED'' =
     (mc_after2\<lparr>q := zeros((state_one_red, ''RED'') \<mapsto> 1 / 2),
                state_seen := [], action_seen := [], q_seen := []\<rparr>, None)"
  by (simp add: mc_step_explore_raises mc_step_greedy_raises mc_update_raises
      mc_steps_cell_read mc_update_cell_read)
     (simp add: mc_recorded_def mc_explore_def mc_fresh_def zeros_one_red R_table_empty)

text \<open>
  C10. An episode starts with empty buffers; \<open>ag\<close> is the agent as the calls of \<open>step\<close>
  leave it, its buffer \<open>q_seen\<close> holding the pairs the calls recorded, and \<open>ag'\<close> is the
  agent as \<open>update\<close> leaves it, whether it returns or raises. Whatever the reads return,
  and so for the reads of the code, every cell of the value table that belongs to no
  recorded pair, the cell of the terminal pair included unless it was recorded, is what
  it was, and so are the reward table, \<open>epsilon\<close> and \<open>step_size\<close>.
\<close>

theorem mc_update_frame:
  assumes "state_seen ag0 = []" and "action_seen ag0 = []" and "q_seen ag0 = []"
    and "ag = fst (mc_steps rd ag0 calls)"
    and "ag' = fst (mc_update_with rd ag state_dict a)"
  shows "(\<forall>p. p \<notin> set (q_seen ag) \<longrightarrow> q ag' p = q ag p) \<and>
         ((map snd state_dict, a) \<notin> set (q_seen ag) \<longrightarrow>
            q ag' (map snd state_dict, a) = q ag (map snd state_dict, a)) \<and>
         R ag' = R ag \<and> epsilon ag' = epsilon ag \<and> step_size ag' = step_size ag"
proof -
  have "buffers_ok ag0" using assms(1-3) by (simp add: buffers_ok_def)
  then have "buffers_ok ag" unfolding assms(4) by (rule mc_steps_buffers)
  then have sub: "set (zip (state_seen ag) (action_seen ag)) \<subseteq> set (q_seen ag)"
    by (simp add: buffers_ok_def)
  have "q ag' p = q ag p" if "p \<notin> set (q_seen ag)" for p
    unfolding assms(5) using that sub by (intro mc_update_q) blast
  then show ?thesis
    unfolding assms(5) by (simp add: mc_update_fields)
qed

theorem mc_update_frame_witness:
  "q (fst (mc_update mc_fresh (as_dict state_empty) ''RED'')) (state_empty, ''RED'') = Some 0 \<and>
   R (fst (mc_update mc_fresh (as_dict state_empty) ''RED'')) = R_table \<and>
   q_seen mc_after1 = [(state_one_red, ''RED'')] \<and>
   q (fst (mc_update_with loc mc_after1 (as_dict state_empty) ''RED'')) (state_empty, ''RED'')
     = Some 0 \<and>
   q (fst (mc_update_with loc mc_after1 (as_dict state_empty) ''RED'')) (state_one_red, ''RED'')
     = Some (1 / 2)"
proof -
  have e: "state_seen mc_fresh = []" "action_seen mc_fresh = []" "q_seen mc_fresh = []"
    by (simp_all add: mc_fresh_def)
  have v: "map snd (as_dict state_empty) = state_empty"
    by (simp add: values_as_dict length_state_empty)
  have z: "q mc_fresh (state_empty, ''RED'') = Some 0" "R mc_fresh = R_table"
    "q mc_after1 (state_empty, ''RED'') = Some 0"
    by (simp_all add: mc_fresh_def mc_after1_def zeros_empty)
  have s0: "mc_fresh = fst (mc_steps loc_tuple mc_fresh [])" by simp
  have s1: "mc_after1 = fst (mc_steps loc mc_fresh [mc_call])"
    by (simp add: mc_steps_cell_read)
  have n: "(state_empty, ''RED'') \<notin> set (q_seen mc_after1)"
    using states_differ by (auto simp: mc_after1_def)
  from mc_update_frame [OF e s0 refl, of "as_dict state_empty" "''RED''"]
  have a: "q (fst (mc_update mc_fresh (as_dict state_empty) ''RED'')) (state_empty, ''RED'')
             = Some 0"
    and b: "R (fst (mc_update mc_fresh (as_dict state_empty) ''RED'')) = R_table"
    by (simp_all add: mc_update_def v z e)
  from mc_update_frame [OF e s1 refl, of "as_dict state_empty" "''RED''"] n
  have c: "q (fst (mc_update_with loc mc_after1 (as_dict state_empty) ''RED''))
             (state_empty, ''RED'') = Some 0"
    by (simp add: v z)
  have d: "q (fst (mc_update_with loc mc_after1 (as_dict state_empty) ''RED''))
             (state_one_red, ''RED'') = Some (1 / 2)"
    by (simp add: mc_update_cell_read)
  have f: "q_seen mc_after1 = [(state_one_red, ''RED'')]" by (simp add: mc_after1_def)
  from a b c d f show ?thesis by simp
qed

subsection \<open>Draws\<close>


lemma draw_ok: "0 < piles d \<Longrightarrow> \<exists>c d'. draw_from_deck d = Inr (c, d')"
  by (auto simp: draw_from_deck_def piles_def Let_def)

lemma other_neq [simp]: "other w \<noteq> w" "w \<noteq> other w"
  by (cases w; simp)+

lemma other_other [simp]: "other (other w) = w"
  by (cases w) simp_all

lemma get_set_player [simp]:
  "get_player (set_player t w p) w = p"
  "get_player (set_player t w p) (other w) = get_player t (other w)"
  "get_player (set_player t (other w) p) w = get_player t w"
  by (cases w; simp)+

lemma set_player_fields [simp]:
  "deck (set_player t w p) = deck t" "count (set_player t w p) = count t"
  "card_open (set_player t w p) = card_open t"
  by (cases w; simp)+

lemma get_player_upd [simp]:
  "get_player (t\<lparr>deck := d\<rparr>) w = get_player t w"
  "get_player (t\<lparr>count := n\<rparr>) w = get_player t w"
  by (cases w; simp)+


lemma turn_draw_props:
  assumes "turn_draw t w = Inr t'"
  shows "\<exists>c. hand (get_player t' w) = hand (get_player t w) @ [c]"
    and "get_player t' (other w) = get_player t (other w)"
    and "Suc (piles (deck t')) = piles (deck t)"
    and "count t' = count t" and "card_open t' = card_open t"
    and "cards_disc (deck t') = [] \<or> cards_disc (deck t') = cards_disc (deck t)"
  using assms
  by (auto simp: turn_draw_def player_draw_def evaluate_hand_def draw_from_deck_def Let_def piles_def
           split: sum.splits prod.splits if_splits)


lemma turn_draw_ok: "0 < piles (deck t) \<Longrightarrow> \<exists>t'. turn_draw t w = Inr t'"
  using draw_ok [of "deck t"]
  by (auto simp: turn_draw_def player_draw_def)


lemma draws_ok:
  "n \<le> piles (deck t) \<Longrightarrow>
     \<exists>t' cs. draws n w t = Inr t' \<and> length cs = n \<and>
       hand (get_player t' w) = hand (get_player t w) @ cs \<and>
       get_player t' (other w) = get_player t (other w) \<and>
       piles (deck t') + n = piles (deck t) \<and> count t' = count t"
proof (induction n arbitrary: t)
  case 0
  then show ?case by simp
next
  case (Suc n)
  then have "0 < piles (deck t)" by simp
  then obtain t1 where t1: "turn_draw t w = Inr t1" using turn_draw_ok by blast
  from turn_draw_props [OF t1] obtain c where
    h: "hand (get_player t1 w) = hand (get_player t w) @ [c]"
    and o: "get_player t1 (other w) = get_player t (other w)"
    and p: "Suc (piles (deck t1)) = piles (deck t)" and k: "count t1 = count t"
    by blast
  from Suc.prems p have "n \<le> piles (deck t1)" by simp
  from Suc.IH [OF this] obtain t' cs where
    "draws n w t1 = Inr t'" "length cs = n"
    "hand (get_player t' w) = hand (get_player t1 w) @ cs"
    "get_player t' (other w) = get_player t1 (other w)"
    "piles (deck t') + n = piles (deck t1)" "count t' = count t1"
    by blast
  with t1 h o p k show ?case
    by (intro exI [of _ t'] exI [of _ "c # cs"]) simp
qed


lemma draws_fail: "piles (deck t) < n \<Longrightarrow> draws n w t = Inl IndexError"
proof (induction n arbitrary: t)
  case 0
  then show ?case by simp
next
  case (Suc n)
  show ?case
  proof (cases "piles (deck t) = 0")
    case True
    then have "turn_draw t w = Inl IndexError"
      by (simp add: turn_draw_def player_draw_def draw_from_deck_def piles_def)
    then show ?thesis by simp
  next
    case False
    then obtain t1 where t1: "turn_draw t w = Inr t1" using turn_draw_ok [of t w] by auto
    from turn_draw_props(3) [OF t1] Suc.prems have "piles (deck t1) < n" by simp
    from Suc.IH [OF this] t1 show ?thesis by simp
  qed
qed

subsection \<open>Penalty chain\<close>

lemma counter_other: "get_player (snd (counter dk t w p)) (other w) = get_player t (other w)"
  by (auto simp: counter_def play_counter_def split: option.splits)

lemma counter_None:
  "find (\<lambda>c. cvalue c = PStr (''PL'' @ py_str p)) (hand (get_player t w)) = None
   \<Longrightarrow> counter dk t w p = (False, t)"
  by (simp add: counter_def)

lemma counter_Some:
  assumes "find (\<lambda>c. cvalue c = PStr (''PL'' @ py_str p)) (hand (get_player t w)) = Some c"
  shows "fst (counter dk t w p)"
    and "hand (get_player (snd (counter dk t w p)) w) = remove1 c (hand (get_player t w))"
    and "count (snd (counter dk t w p)) = count t + 1"
    and "deck (snd (counter dk t w p)) = dk (deck t) c"
  using assms by (simp_all add: counter_def play_counter_def)

lemma counter_count_deck_miss:
  "\<not> fst (counter dk t w p) \<Longrightarrow> snd (counter dk t w p) = t"
  by (auto simp: counter_def play_counter_def split: option.splits)

lemma chain_unfold:
  "chain dk t w p =
     (if check_win (get_player (snd (counter dk t (other w) p)) (other w))
      then (True, snd (counter dk t (other w) p))
      else if \<not> fst (counter dk t (other w) p)
      then (if check_win (get_player t w) then (True, snd (counter dk t (other w) p))
            else (False, snd (counter dk t (other w) p)))
      else if check_win (get_player (snd (counter dk (snd (counter dk t (other w) p)) w p)) w)
      then (True, snd (counter dk (snd (counter dk t (other w) p)) w p))
      else if fst (counter dk (snd (counter dk t (other w) p)) w p)
      then chain dk (snd (counter dk (snd (counter dk t (other w) p)) w p)) w p
      else (False, snd (counter dk (snd (counter dk t (other w) p)) w p)))"
proof -
  have "get_player (snd (counter dk t (other w) p)) w = get_player t w"
    using counter_other [of dk t "other w" p] by simp
  then show ?thesis
    by (subst chain.simps) (simp add: Let_def)
qed

lemma chain_induct [case_names step]:
  assumes "\<And>dk t w p.
     (\<not> check_win (get_player (snd (counter dk t (other w) p)) (other w)) \<Longrightarrow>
      fst (counter dk t (other w) p) \<Longrightarrow>
      \<not> check_win (get_player (snd (counter dk (snd (counter dk t (other w) p)) w p)) w) \<Longrightarrow>
      fst (counter dk (snd (counter dk t (other w) p)) w p) \<Longrightarrow>
      P dk (snd (counter dk (snd (counter dk t (other w) p)) w p)) w p) \<Longrightarrow> P dk t w p"
  shows "P dk t w p"
proof (induction dk t w p rule: chain.induct)
  case (1 dk t w p)
  show ?case
  proof (rule assms)
    assume a: "\<not> check_win (get_player (snd (counter dk t (other w) p)) (other w))"
      and b: "fst (counter dk t (other w) p)"
      and c: "\<not> check_win (get_player (snd (counter dk (snd (counter dk t (other w) p)) w p)) w)"
      and d: "fst (counter dk (snd (counter dk t (other w) p)) w p)"
    show "P dk (snd (counter dk (snd (counter dk t (other w) p)) w p)) w p"
      using "1.IH" [OF refl refl a refl refl] b c d by simp
  qed
qed

lemma swap_swap: "swap_hands (swap_hands x) = x"
  by (cases x) simp

lemma chain_refines:
  "hand (get_player t w) \<noteq> [] \<Longrightarrow> hand (get_player t (other w)) \<noteq> [] \<Longrightarrow>
   (fst (chain dk t w p), hand (get_player (snd (chain dk t w p)) (other w)),
    hand (get_player (snd (chain dk t w p)) w), count (snd (chain dk t w p)))
   = spec_chain (PStr (''PL'' @ py_str p)) (hand (get_player t (other w)))
       (hand (get_player t w)) (count t)"
proof (induction dk t w p rule: chain_induct)
  case (step dk t w p)
  let ?v = "PStr (''PL'' @ py_str p)"
  let ?hp = "hand (get_player t (other w))"
  let ?ha = "hand (get_player t w)"
  let ?t1 = "snd (counter dk t (other w) p)"
  let ?t2 = "snd (counter dk ?t1 w p)"
  have a1: "get_player ?t1 w = get_player t w"
    using counter_other [of dk t "other w" p] by simp
  have p2: "get_player ?t2 (other w) = get_player ?t1 (other w)"
    by (rule counter_other)
  show ?case
  proof (cases "find (\<lambda>c. cvalue c = ?v) ?hp")
    case None
    have ch: "chain dk t w p = (False, t)"
      using counter_None [OF None, of dk] step.prems
      by (subst chain_unfold) (simp add: check_win_def)
    have sp: "spec_chain ?v ?hp ?ha (count t) = (False, ?hp, ?ha, count t)"
      using None by (subst spec_chain.simps) simp
    show ?thesis using ch sp by simp
  next
    case (Some c)
    note c1 = counter_Some [OF Some, of dk]
    show ?thesis
    proof (cases "remove1 c ?hp = []")
      case True
      have ch: "chain dk t w p = (True, ?t1)"
        using c1 True by (subst chain_unfold) (simp add: check_win_def)
      have sp: "spec_chain ?v ?hp ?ha (count t) = (True, [], ?ha, count t + 1)"
        using Some True by (subst spec_chain.simps) simp
      show ?thesis using ch sp c1 True a1 by simp
    next
      case False
      have w1: "\<not> check_win (get_player ?t1 (other w))"
        using c1(2) False by (simp add: check_win_def)
      show ?thesis
      proof (cases "find (\<lambda>c. cvalue c = ?v) ?ha")
        case None
        then have n: "find (\<lambda>c. cvalue c = ?v) (hand (get_player ?t1 w)) = None"
          by (simp add: a1)
        have ch: "chain dk t w p = (False, ?t1)"
          using counter_None [OF n, of dk] w1 c1(1) step.prems a1
          by (subst chain_unfold) (simp add: check_win_def)
        have sp: "spec_chain ?v ?hp ?ha (count t) = (False, remove1 c ?hp, ?ha, count t + 1)"
          using Some False None
          by (subst spec_chain.simps, subst spec_chain.simps) simp
        show ?thesis using ch sp c1 a1 by simp
      next
        case Some2: (Some c2)
        then have s2: "find (\<lambda>c. cvalue c = ?v) (hand (get_player ?t1 w)) = Some c2"
          by (simp add: a1)
        note c2 = counter_Some [OF s2, of dk]
        show ?thesis
        proof (cases "remove1 c2 ?ha = []")
          case True
          have ch: "chain dk t w p = (True, ?t2)"
            using w1 c1(1) c2 True a1 by (subst chain_unfold) (simp add: check_win_def)
          have sp: "spec_chain ?v ?hp ?ha (count t) = (True, remove1 c ?hp, [], count t + 2)"
            using Some Some2 False True
            by (subst spec_chain.simps, subst spec_chain.simps) simp
          show ?thesis using ch sp c1 c2 True a1 p2 by simp
        next
          case ne2: False
          have w2: "\<not> check_win (get_player ?t2 w)"
            using c2(2) ne2 a1 by (simp add: check_win_def)
          have ih: "(fst (chain dk ?t2 w p), hand (get_player (snd (chain dk ?t2 w p)) (other w)),
                     hand (get_player (snd (chain dk ?t2 w p)) w), count (snd (chain dk ?t2 w p)))
                    = spec_chain ?v (hand (get_player ?t2 (other w))) (hand (get_player ?t2 w))
                        (count ?t2)"
            using step.IH [OF w1 c1(1) w2 c2(1)] c1(2) c2(2) False ne2 a1 p2 by simp
          have ch: "chain dk t w p = chain dk ?t2 w p"
            using w1 w2 c1(1) c2(1) by (subst chain_unfold) simp
          have sp: "spec_chain ?v ?hp ?ha (count t)
                    = spec_chain ?v (remove1 c ?hp) (remove1 c2 ?ha) (count t + 2)"
            using Some Some2 False ne2
            by (subst spec_chain.simps, subst spec_chain.simps) (simp add: swap_swap add.commute)
          show ?thesis
            using ch sp ih c1 c2 a1 p2 by (simp add: add.commute)
        qed
      qed
    qed
  qed
qed


lemma chain_win:
  "fst (chain dk t w p) \<longleftrightarrow>
     check_win (get_player (snd (chain dk t w p)) w) \<or>
     check_win (get_player (snd (chain dk t w p)) (other w))"
proof (induction dk t w p rule: chain_induct)
  case (step dk t w p)
  have o: "get_player (snd (counter dk (snd (counter dk t (other w) p)) w p)) (other w)
             = get_player (snd (counter dk t (other w) p)) (other w)"
    by (rule counter_other)
  have a: "get_player (snd (counter dk t (other w) p)) w = get_player t w"
    using counter_other [of dk t "other w" p] by simp
  from step show ?case
    by (subst (1 2 3) chain_unfold) (auto simp: o a)
qed

lemma chain_no_counter:
  assumes "find (\<lambda>c. cvalue c = PStr (''PL'' @ py_str p)) (hand (get_player t (other w))) = None"
    and "hand (get_player t w) \<noteq> []" and "hand (get_player t (other w)) \<noteq> []"
  shows "chain dk t w p = (False, t)"
  using assms counter_None [of p t "other w" dk]
  by (subst chain_unfold) (simp add: check_win_def)

lemma action_plus_win: "chain dk (t\<lparr>count := 1\<rparr>) w p = (True, t1) \<Longrightarrow> action_plus dk t w p = Inr t1"
  by (simp add: action_plus_def)

lemma action_plus_no_win:
  "chain dk (t\<lparr>count := 1\<rparr>) w p = (False, t1) \<Longrightarrow>
     action_plus dk t w p
       = draws (nat (count t1 * p)) (if count t1 mod 2 = 0 then w else other w) t1"
  by (simp add: action_plus_def)

text \<open>
  C4, as amended. A penalty chain is started with both hands non-empty (\<open>Turn.action\<close>
  checks both before it calls \<open>action_plus\<close>). \<open>t1\<close> is the state in which the loop of
  \<open>action_plus\<close> ends, and \<open>(win, hp, ha, n)\<close> is what the chain in the specification's
  words, with its win check after every single counter-play, gives for the passive and
  the active hand. The two agree: same win flag, same hands, same counter. After a win
  a hand is empty and \<open>action_plus\<close> returns the state \<open>t1\<close> itself, with nothing drawn.
  Without a win no hand is empty and \<open>n * penalty\<close> draws are made by the active player
  if \<open>n\<close> is even, by the passive player if it is odd: when the two piles together hold
  that many cards, the drawn cards are added to that hand and the other player is
  unchanged; when they hold fewer, the draws raise IndexError. When the passive player
  holds no matching card, there is no win, the counter is 1 and both hands are as they
  were when the draws begin.
\<close>

theorem penalty_chain:
  assumes "hand (get_player t w) \<noteq> []" and "hand (get_player t (other w)) \<noteq> []"
    and "spec_chain (PStr (''PL'' @ py_str penalty)) (hand (get_player t (other w)))
           (hand (get_player t w)) 1 = (win, hp, ha, n)"
    and "chain dk (t\<lparr>count := 1\<rparr>) w penalty = (ret, t1)"
  shows "ret = win \<and> hand (get_player t1 (other w)) = hp \<and> hand (get_player t1 w) = ha \<and>
         count t1 = n \<and>
         (win \<longrightarrow> (hp = [] \<or> ha = []) \<and> action_plus dk t w penalty = Inr t1) \<and>
         (\<not> win \<longrightarrow> hp \<noteq> [] \<and> ha \<noteq> [] \<and>
            action_plus dk t w penalty
              = draws (nat (n * penalty)) (if n mod 2 = 0 then w else other w) t1) \<and>
         (\<not> win \<and> nat (n * penalty) \<le> piles (deck t1) \<longrightarrow>
            (\<exists>t2 cs. action_plus dk t w penalty = Inr t2 \<and> length cs = nat (n * penalty) \<and>
               count t2 = n \<and>
               (if n mod 2 = 0
                then hand (get_player t2 w) = ha @ cs \<and>
                     get_player t2 (other w) = get_player t1 (other w)
                else hand (get_player t2 (other w)) = hp @ cs \<and>
                     get_player t2 w = get_player t1 w))) \<and>
         (\<not> win \<and> piles (deck t1) < nat (n * penalty) \<longrightarrow>
            action_plus dk t w penalty = Inl IndexError) \<and>
         (find (\<lambda>c. cvalue c = PStr (''PL'' @ py_str penalty)) (hand (get_player t (other w)))
            = None \<longrightarrow>
            \<not> win \<and> n = 1 \<and> hp = hand (get_player t (other w)) \<and>
            ha = hand (get_player t w) \<and> t1 = t\<lparr>count := 1\<rparr>)"
proof -
  let ?t = "t\<lparr>count := 1\<rparr>"
  have "(fst (chain dk ?t w penalty), hand (get_player (snd (chain dk ?t w penalty)) (other w)),
         hand (get_player (snd (chain dk ?t w penalty)) w), count (snd (chain dk ?t w penalty)))
        = spec_chain (PStr (''PL'' @ py_str penalty)) (hand (get_player ?t (other w)))
            (hand (get_player ?t w)) (count ?t)"
    using assms(1,2) by (intro chain_refines) simp_all
  with assms(3,4) have r: "ret = win" "hand (get_player t1 (other w)) = hp"
    "hand (get_player t1 w) = ha" "count t1 = n"
    by simp_all
  from chain_win [of dk ?t w penalty] assms(4) r
  have w: "win \<longleftrightarrow> ha = [] \<or> hp = []"
    by (simp add: check_win_def)
  have a: "win \<longrightarrow> (hp = [] \<or> ha = []) \<and> action_plus dk t w penalty = Inr t1"
    using w assms(4) r(1) action_plus_win [of dk t w penalty t1] by auto
  have d: "action_plus dk t w penalty
             = draws (nat (n * penalty)) (if n mod 2 = 0 then w else other w) t1" if "\<not> win"
    using that assms(4) r(1,4) action_plus_no_win [of dk t w penalty t1] by simp
  have b: "\<not> win \<longrightarrow> hp \<noteq> [] \<and> ha \<noteq> [] \<and>
            action_plus dk t w penalty
              = draws (nat (n * penalty)) (if n mod 2 = 0 then w else other w) t1"
    using w d by auto
  have c: "\<exists>t2 cs. action_plus dk t w penalty = Inr t2 \<and> length cs = nat (n * penalty) \<and>
               count t2 = n \<and>
               (if n mod 2 = 0
                then hand (get_player t2 w) = ha @ cs \<and>
                     get_player t2 (other w) = get_player t1 (other w)
                else hand (get_player t2 (other w)) = hp @ cs \<and>
                     get_player t2 w = get_player t1 w)"
    if nw: "\<not> win" and le: "nat (n * penalty) \<le> piles (deck t1)"
  proof (cases "n mod 2 = 0")
    case True
    from draws_ok [OF le, of w] obtain t2 cs where
      "draws (nat (n * penalty)) w t1 = Inr t2" "length cs = nat (n * penalty)"
      "hand (get_player t2 w) = hand (get_player t1 w) @ cs"
      "get_player t2 (other w) = get_player t1 (other w)" "count t2 = count t1"
      by blast
    with True d [OF nw] r show ?thesis
      by (intro exI [of _ t2] exI [of _ cs]) simp
  next
    case False
    from draws_ok [OF le, of "other w"] obtain t2 cs where
      "draws (nat (n * penalty)) (other w) t1 = Inr t2" "length cs = nat (n * penalty)"
      "hand (get_player t2 (other w)) = hand (get_player t1 (other w)) @ cs"
      "get_player t2 w = get_player t1 w" "count t2 = count t1"
      by auto
    with False d [OF nw] r show ?thesis
      by (intro exI [of _ t2] exI [of _ cs]) simp
  qed
  have e: "\<not> win \<and> piles (deck t1) < nat (n * penalty) \<longrightarrow>
            action_plus dk t w penalty = Inl IndexError"
    using d draws_fail by simp
  have f: "\<not> win \<and> n = 1 \<and> hp = hand (get_player t (other w)) \<and>
            ha = hand (get_player t w) \<and> t1 = t\<lparr>count := 1\<rparr>"
    if "find (\<lambda>c. cvalue c = PStr (''PL'' @ py_str penalty)) (hand (get_player t (other w)))
          = None"
  proof -
    have "chain dk ?t w penalty = (False, ?t)"
      using that assms(1,2) by (intro chain_no_counter) simp_all
    with assms(4) r show ?thesis by auto
  qed
  from r a b c e f show ?thesis by blast
qed

lemma py_str_2: "py_str 2 = ''2''"
  by (simp add: py_str_def digits.simps)

lemma sample_spec_chain:
  "spec_chain (PStr ''PL2'') [pl2, blu2] [red1] 1 = (False, [blu2], [red1], 2)"
  "spec_chain (PStr ''PL2'') [pl2, pl2, blu2] [pl2] 1 = (True, [pl2, blu2], [], 3)"
  "spec_chain (PStr ''PL2'') [blu2] [red1] 1 = (False, [blu2], [red1], 1)"
  "spec_chain (PStr ''PL2'') [pl2, blu2] [pl2, red1] 1 = (False, [blu2], [red1], 3)"
  by (simp_all add: spec_chain.simps pl2_def blu2_def red1_def Card_def)

lemma sample_turn_fields:
  "hand (player_1 (sample_turn ha hb)) = ha"
  "hand (player_2 (sample_turn ha hb)) = hb"
  "piles (deck (sample_turn ha hb)) = 6"
  by (simp_all add: sample_turn_def player_A_def player_B_def sample_deck_def piles_def)

lemma chain_piles_discard:
  "piles (deck (snd (chain discard t w p))) + hands (snd (chain discard t w p))
     = piles (deck t) + hands t"
proof (induction discard t w p rule: chain_induct)
  case (step t w p)
  have c: "piles (deck (snd (counter discard t w p))) + hands (snd (counter discard t w p))
             = piles (deck t) + hands t" for t w p
    by (cases w)
       (auto simp: counter_def play_counter_def hands_def piles_def discard_def length_remove1
             dest!: find_Some_set split: option.splits,
        (cases "hand (player_1 t)"; simp), (cases "hand (player_2 t)"; simp))
  from step show ?case
    by (subst (1 2) chain_unfold) (simp add: c)
qed

theorem penalty_chain_witness:
  "(\<exists>t2. action_plus discard (sample_turn [red1] [pl2, blu2]) P1 2 = Inr t2 \<and> count t2 = 2 \<and>
       length (hand (player_1 t2)) = 5 \<and> hand (player_2 t2) = [blu2]) \<and>
   (\<exists>t1. action_plus discard (sample_turn [pl2] [pl2, pl2, blu2]) P1 2 = Inr t1 \<and>
       count t1 = 3 \<and> hand (player_1 t1) = [] \<and> hand (player_2 t1) = [pl2, blu2]) \<and>
   (\<exists>t4. action_plus discard (sample_turn [red1] [blu2]) P1 2 = Inr t4 \<and> count t4 = 1 \<and>
       length (hand (player_2 t4)) = 3 \<and> hand (player_1 t4) = [red1]) \<and>
   (\<exists>t6. action_plus discard (sample_turn [pl2, red1] [pl2, blu2]) P1 2 = Inr t6 \<and>
       count t6 = 3 \<and> length (hand (player_2 t6)) = 7 \<and> hand (player_1 t6) = [red1])"
proof (intro conjI)
  let ?t = "sample_turn [red1] [pl2, blu2]"
  let ?r = "chain discard (?t\<lparr>count := 1\<rparr>) P1 2"
  have ne: "hand (get_player ?t P1) \<noteq> []" "hand (get_player ?t (other P1)) \<noteq> []"
    by (simp_all add: sample_turn_fields)
  have sp: "spec_chain (PStr (''PL'' @ py_str 2)) (hand (get_player ?t (other P1)))
              (hand (get_player ?t P1)) 1 = (False, [blu2], [red1], 2)"
    by (simp add: sample_turn_fields py_str_2 sample_spec_chain)
  have ch: "?r = (fst ?r, snd ?r)" by simp
  note th = penalty_chain [OF ne sp ch]
  from th have h: "hand (get_player (snd ?r) (other P1)) = [blu2]"
    "hand (get_player (snd ?r) P1) = [red1]" by simp_all
  have "piles (deck (snd ?r)) + hands (snd ?r) = piles (deck (?t\<lparr>count := 1\<rparr>)) + hands (?t\<lparr>count := 1\<rparr>)"
    by (rule chain_piles_discard)
  with h have p: "piles (deck (snd ?r)) = 7"
    by (simp add: hands_def sample_turn_def player_A_def player_B_def sample_deck_def piles_def)
  from th [THEN conjunct2, THEN conjunct2, THEN conjunct2, THEN conjunct2, THEN conjunct2,
    THEN conjunct2, THEN conjunct1] p
  have "\<exists>t2 cs. action_plus discard ?t P1 2 = Inr t2 \<and> length cs = 4 \<and>
    count t2 = 2 \<and> hand (player_1 t2) = red1 # cs \<and> player_2 t2 = player_2 (snd ?r)"
    by auto
  then obtain t2 cs where "action_plus discard ?t P1 2 = Inr t2" "length cs = 4"
    "count t2 = 2" "hand (player_1 t2) = red1 # cs" "player_2 t2 = player_2 (snd ?r)"
    by blast
  with h show "\<exists>t2. action_plus discard ?t P1 2 = Inr t2 \<and> count t2 = 2 \<and>
       length (hand (player_1 t2)) = 5 \<and> hand (player_2 t2) = [blu2]"
    by (intro exI [of _ t2]) simp
next
  let ?t = "sample_turn [pl2] [pl2, pl2, blu2]"
  let ?r = "chain discard (?t\<lparr>count := 1\<rparr>) P1 2"
  have ne: "hand (get_player ?t P1) \<noteq> []" "hand (get_player ?t (other P1)) \<noteq> []"
    by (simp_all add: sample_turn_fields)
  have sp: "spec_chain (PStr (''PL'' @ py_str 2)) (hand (get_player ?t (other P1)))
              (hand (get_player ?t P1)) 1 = (True, [pl2, blu2], [], 3)"
    by (simp add: sample_turn_fields py_str_2 sample_spec_chain)
  have ch: "?r = (fst ?r, snd ?r)" by simp
  from penalty_chain [OF ne sp ch]
  show "\<exists>t1. action_plus discard ?t P1 2 = Inr t1 \<and>
       count t1 = 3 \<and> hand (player_1 t1) = [] \<and> hand (player_2 t1) = [pl2, blu2]"
    by (intro exI [of _ "snd ?r"]) simp
next
  let ?t = "sample_turn [red1] [blu2]"
  let ?r = "chain discard (?t\<lparr>count := 1\<rparr>) P1 2"
  have ne: "hand (get_player ?t P1) \<noteq> []" "hand (get_player ?t (other P1)) \<noteq> []"
    by (simp_all add: sample_turn_fields)
  have sp: "spec_chain (PStr (''PL'' @ py_str 2)) (hand (get_player ?t (other P1)))
              (hand (get_player ?t P1)) 1 = (False, [blu2], [red1], 1)"
    by (simp add: sample_turn_fields py_str_2 sample_spec_chain)
  have ch: "?r = (fst ?r, snd ?r)" by simp
  have nf: "find (\<lambda>c. cvalue c = PStr (''PL'' @ py_str 2)) (hand (get_player ?t (other P1))) = None"
    by (simp add: sample_turn_fields py_str_2 blu2_def Card_def)
  note th = penalty_chain [OF ne sp ch]
  from th nf have t1: "snd ?r = ?t\<lparr>count := 1\<rparr>" by simp
  then have p: "piles (deck (snd ?r)) = 6" by (simp add: sample_turn_fields)
  from th [THEN conjunct2, THEN conjunct2, THEN conjunct2, THEN conjunct2, THEN conjunct2,
    THEN conjunct2, THEN conjunct1] p
  have "\<exists>t4 cs. action_plus discard ?t P1 2 = Inr t4 \<and> length cs = 2 \<and>
    count t4 = 1 \<and> hand (player_2 t4) = blu2 # cs \<and> player_1 t4 = player_1 (snd ?r)"
    by auto
  then obtain t4 cs where "action_plus discard ?t P1 2 = Inr t4" "length cs = 2"
    "count t4 = 1" "hand (player_2 t4) = blu2 # cs" "player_1 t4 = player_1 (snd ?r)"
    by blast
  then show "\<exists>t4. action_plus discard ?t P1 2 = Inr t4 \<and> count t4 = 1 \<and>
       length (hand (player_2 t4)) = 3 \<and> hand (player_1 t4) = [red1]"
    by (intro exI [of _ t4]) (simp add: t1 sample_turn_fields)
next
  let ?t = "sample_turn [pl2, red1] [pl2, blu2]"
  let ?r = "chain discard (?t\<lparr>count := 1\<rparr>) P1 2"
  have ne: "hand (get_player ?t P1) \<noteq> []" "hand (get_player ?t (other P1)) \<noteq> []"
    by (simp_all add: sample_turn_fields)
  have sp: "spec_chain (PStr (''PL'' @ py_str 2)) (hand (get_player ?t (other P1)))
              (hand (get_player ?t P1)) 1 = (False, [blu2], [red1], 3)"
    by (simp add: sample_turn_fields py_str_2 sample_spec_chain)
  have ch: "?r = (fst ?r, snd ?r)" by simp
  note th = penalty_chain [OF ne sp ch]
  from th have h: "hand (get_player (snd ?r) (other P1)) = [blu2]"
    "hand (get_player (snd ?r) P1) = [red1]" by simp_all
  have "piles (deck (snd ?r)) + hands (snd ?r)
          = piles (deck (?t\<lparr>count := 1\<rparr>)) + hands (?t\<lparr>count := 1\<rparr>)"
    by (rule chain_piles_discard)
  with h have p: "piles (deck (snd ?r)) = 8"
    by (simp add: hands_def sample_turn_fields)
  from th [THEN conjunct2, THEN conjunct2, THEN conjunct2, THEN conjunct2, THEN conjunct2,
    THEN conjunct2, THEN conjunct1] p
  have "\<exists>t6 cs. action_plus discard ?t P1 2 = Inr t6 \<and> length cs = 6 \<and>
    count t6 = 3 \<and> hand (player_2 t6) = blu2 # cs \<and> player_1 t6 = player_1 (snd ?r)"
    by auto
  then obtain t6 cs where "action_plus discard ?t P1 2 = Inr t6" "length cs = 6"
    "count t6 = 3" "hand (player_2 t6) = blu2 # cs" "player_1 t6 = player_1 (snd ?r)"
    by blast
  with h show "\<exists>t6. action_plus discard ?t P1 2 = Inr t6 \<and>
       count t6 = 3 \<and> length (hand (player_2 t6)) = 7 \<and> hand (player_1 t6) = [red1]"
    by (intro exI [of _ t6]) simp
qed

text \<open>
  C4, as stated, fails: a chain ends with counter 1 and no hand empty, the passive
  player is to draw two cards, and the piles hold one: the draw raises IndexError.
\<close>

theorem penalty_draw_short_piles:
  "hand (player_1 short_turn) = [red1] \<and> hand (player_2 short_turn) = [blu2] \<and>
   piles (deck short_turn) = 1 \<and>
   chain discard (short_turn\<lparr>count := 1\<rparr>) P1 2 = (False, short_turn\<lparr>count := 1\<rparr>) \<and>
   action_plus discard short_turn P1 2 = Inl IndexError"
proof -
  have f: "hand (player_1 short_turn) = [red1]" "hand (player_2 short_turn) = [blu2]"
    "piles (deck short_turn) = 1"
    by (simp_all add: short_turn_def sample_turn_def player_A_def player_B_def piles_def)
  have c: "chain discard (short_turn\<lparr>count := 1\<rparr>) P1 2 = (False, short_turn\<lparr>count := 1\<rparr>)"
    by (rule chain_no_counter) (simp_all add: f py_str_2 blu2_def Card_def)
  have "draws 2 P2 (short_turn\<lparr>count := 1\<rparr>) = Inl IndexError"
    by (rule draws_fail) (simp add: f)
  with c f show ?thesis by (simp add: action_plus_def)
qed

subsection \<open>Card count\<close>




















end
